theory Spec2Isabelle
  imports Main "HOL-Library.Word"
begin

section \<open>Python values\<close>

text \<open>
  The serializers of \<^verbatim>\<open>sagemaker/serializers.py\<close> take any Python object and decide
  what to do by probing it (\<^verbatim>\<open>hasattr\<close>, \<^verbatim>\<open>isinstance\<close>, \<^verbatim>\<open>len\<close>). The model
  therefore has one type of Python values, with the builtin types the module
  distinguishes. A string is a list of characters (code points below 256); an integer
  is unbounded; a dictionary is its list of items in iteration order, with string
  keys; a set is the list of its elements in iteration order; a NumPy array is its
  dtype name, its shape and its elements in row-major order; a stream is the object
  its \<^verbatim>\<open>read()\<close> returns.

  A float is not-a-number, an infinity with its sign, or a finite number. A finite
  float is given by what identifies it in print: its sign, the decimal digits
  \<open>d\<^sub>1 \<dots> d\<^sub>n\<close> of its shortest representation and the position \<open>p\<close> of the
  decimal point, for the value \<open>0.d\<^sub>1\<dots>d\<^sub>n \<times> 10\<^sup>p\<close> (\<^verbatim>\<open>1.5\<close> is the digits 1, 5 with
  \<open>p = 1\<close>; \<^verbatim>\<open>0.001\<close> is the digit 1 with \<open>p = -2\<close>; zero is the digit 0 with
  \<open>p = 1\<close>).
\<close>

datatype pyfloat = FloatFinite bool "nat list" int | FloatInf bool | FloatNaN

type_synonym byte = "8 word"

datatype pyval =
    PNone
  | PBool bool
  | PInt int
  | PFloat pyfloat
  | PStr string
  | PBytes "byte list"
  | PList "pyval list"
  | PTuple "pyval list"
  | PSet "pyval list"
  | PDict "(string \<times> pyval) list"
  | PArray string "nat list" "pyval list"
  | PStream pyval

datatype pytype =
    T_NoneType | T_bool | T_int | T_float | T_str | T_bytes | T_list | T_tuple | T_set | T_dict
  | T_ndarray | T_stream

fun type_of :: "pyval \<Rightarrow> pytype" where
  "type_of PNone = T_NoneType"
| "type_of (PBool _) = T_bool"
| "type_of (PInt _) = T_int"
| "type_of (PFloat _) = T_float"
| "type_of (PStr _) = T_str"
| "type_of (PBytes _) = T_bytes"
| "type_of (PList _) = T_list"
| "type_of (PTuple _) = T_tuple"
| "type_of (PSet _) = T_set"
| "type_of (PDict _) = T_dict"
| "type_of (PArray _ _ _) = T_ndarray"
| "type_of (PStream _) = T_stream"

text \<open>
  Exceptions. The two \<^verbatim>\<open>ValueError\<close>s the module raises itself keep their arguments;
  the errors of the Python runtime and of the libraries keep the type of the object
  that caused them.
\<close>

datatype pyexc =
    ValueError string
  | ValueErrorType string pytype
  | TypeErrorNoLen pytype
  | TypeErrorNotSubscriptable pytype
  | TypeErrorNotIterable pytype
  | TypeErrorNotJSON pytype
  | KeyError pyval
  | IndexError
  | LibraryError string

section \<open>The Python builtins the module uses\<close>

subsection \<open>Attribute probes\<close>

text \<open>\<^verbatim>\<open>hasattr(data, "read")\<close> and \<^verbatim>\<open>data.read()\<close>: the attribute as an option.\<close>

fun py_read :: "pyval \<Rightarrow> pyval option" where
  "py_read (PStream c) = Some c"
| "py_read _ = None"

definition has_read :: "pyval \<Rightarrow> bool" where
  "has_read data = (py_read data \<noteq> None)"

fun has_iter :: "pyval \<Rightarrow> bool" where
  "has_iter (PStr _) = True"
| "has_iter (PBytes _) = True"
| "has_iter (PList _) = True"
| "has_iter (PTuple _) = True"
| "has_iter (PSet _) = True"
| "has_iter (PDict _) = True"
| "has_iter (PArray _ _ _) = True"
| "has_iter (PStream _) = True"
| "has_iter _ = False"

fun has_getitem :: "pyval \<Rightarrow> bool" where
  "has_getitem (PStr _) = True"
| "has_getitem (PBytes _) = True"
| "has_getitem (PList _) = True"
| "has_getitem (PTuple _) = True"
| "has_getitem (PDict _) = True"
| "has_getitem (PArray _ _ _) = True"
| "has_getitem _ = False"

fun has_setitem :: "pyval \<Rightarrow> bool" where
  "has_setitem (PList _) = True"
| "has_setitem (PDict _) = True"
| "has_setitem (PArray _ _ _) = True"
| "has_setitem _ = False"

fun has_len :: "pyval \<Rightarrow> bool" where
  "has_len (PStr _) = True"
| "has_len (PBytes _) = True"
| "has_len (PList _) = True"
| "has_len (PTuple _) = True"
| "has_len (PSet _) = True"
| "has_len (PDict _) = True"
| "has_len (PArray _ _ _) = True"
| "has_len _ = False"

fun is_str :: "pyval \<Rightarrow> bool" where
  "is_str (PStr _) = True"
| "is_str _ = False"

fun is_ndarray :: "pyval \<Rightarrow> bool" where
  "is_ndarray (PArray _ _ _) = True"
| "is_ndarray _ = False"

fun is_list :: "pyval \<Rightarrow> bool" where
  "is_list (PList _) = True"
| "is_list _ = False"

fun is_dict :: "pyval \<Rightarrow> bool" where
  "is_dict (PDict _) = True"
| "is_dict _ = False"

subsection \<open>Arrays\<close>

text \<open>\<^verbatim>\<open>data.size\<close> is the product of the shape.\<close>

fun array_size :: "pyval \<Rightarrow> nat" where
  "array_size (PArray _ sh _) = prod_list sh"
| "array_size _ = 0"

text \<open>\<^verbatim>\<open>np.ndarray.flatten\<close>: one dimension, the same elements in row-major order.\<close>

fun flatten :: "pyval \<Rightarrow> pyval" where
  "flatten (PArray dt sh es) = PArray dt [prod_list sh] es"
| "flatten v = v"

text \<open>The items of an array of at least one dimension, as iteration and indexing
  along the first axis give them: the elements of a one-dimensional array, the
  sub-arrays of a larger one.\<close>

definition array_items :: "string \<Rightarrow> nat list \<Rightarrow> pyval list \<Rightarrow> pyval list" where
  "array_items dt sh es =
     (case sh of
        [] \<Rightarrow> []
      | [n] \<Rightarrow> take n es
      | n # sh' \<Rightarrow>
          map (\<lambda>i. PArray dt sh' (take (prod_list sh') (drop (i * prod_list sh') es))) [0..<n])"

text \<open>\<^verbatim>\<open>ndarray.tolist()\<close>: nested lists along the shape; the element itself for a
  zero-dimensional array.\<close>

fun nest :: "nat list \<Rightarrow> pyval list \<Rightarrow> pyval" where
  "nest [] es = (case es of [] \<Rightarrow> PNone | x # _ \<Rightarrow> x)"
| "nest (n # sh) es =
     PList (map (\<lambda>i. nest sh (take (prod_list sh) (drop (i * prod_list sh) es))) [0..<n])"

fun tolist :: "pyval \<Rightarrow> pyval" where
  "tolist (PArray dt sh es) = nest sh es"
| "tolist v = v"

subsection \<open>Length, indexing, iteration\<close>

text \<open>\<^verbatim>\<open>len(data)\<close>: a \<^verbatim>\<open>TypeError\<close> for an object without \<^verbatim>\<open>__len__\<close> and for a
  zero-dimensional array.\<close>

fun py_len :: "pyval \<Rightarrow> pyexc + nat" where
  "py_len (PStr s) = Inr (length s)"
| "py_len (PBytes bs) = Inr (length bs)"
| "py_len (PList xs) = Inr (length xs)"
| "py_len (PTuple xs) = Inr (length xs)"
| "py_len (PSet xs) = Inr (length xs)"
| "py_len (PDict kvs) = Inr (length kvs)"
| "py_len (PArray dt sh es) = (case sh of [] \<Rightarrow> Inl (TypeErrorNoLen T_ndarray) | n # _ \<Rightarrow> Inr n)"
| "py_len v = Inl (TypeErrorNoLen (type_of v))"

text \<open>\<^verbatim>\<open>data[0]\<close>. A dictionary has string keys here, so the key \<^verbatim>\<open>0\<close> is missing.\<close>

fun py_getitem0 :: "pyval \<Rightarrow> pyexc + pyval" where
  "py_getitem0 (PStr s) = (case s of [] \<Rightarrow> Inl IndexError | c # _ \<Rightarrow> Inr (PStr [c]))"
| "py_getitem0 (PBytes bs) = (case bs of [] \<Rightarrow> Inl IndexError | b # _ \<Rightarrow> Inr (PInt (uint b)))"
| "py_getitem0 (PList xs) = (case xs of [] \<Rightarrow> Inl IndexError | x # _ \<Rightarrow> Inr x)"
| "py_getitem0 (PTuple xs) = (case xs of [] \<Rightarrow> Inl IndexError | x # _ \<Rightarrow> Inr x)"
| "py_getitem0 (PDict kvs) = Inl (KeyError (PInt 0))"
| "py_getitem0 (PArray dt sh es) =
     (case array_items dt sh es of [] \<Rightarrow> Inl IndexError | x # _ \<Rightarrow> Inr x)"
| "py_getitem0 v = Inl (TypeErrorNotSubscriptable (type_of v))"

text \<open>The elements \<^verbatim>\<open>for x in data\<close> visits. The module iterates only over objects
  with a length, so a stream, which would give its lines, is left out.\<close>

fun py_iter :: "pyval \<Rightarrow> pyexc + pyval list" where
  "py_iter (PStr s) = Inr (map (\<lambda>c. PStr [c]) s)"
| "py_iter (PBytes bs) = Inr (map (\<lambda>b. PInt (uint b)) bs)"
| "py_iter (PList xs) = Inr xs"
| "py_iter (PTuple xs) = Inr xs"
| "py_iter (PSet xs) = Inr xs"
| "py_iter (PDict kvs) = Inr (map (\<lambda>kv. PStr (fst kv)) kvs)"
| "py_iter (PArray dt sh es) =
     (case sh of [] \<Rightarrow> Inl (TypeErrorNotIterable T_ndarray) | _ \<Rightarrow> Inr (array_items dt sh es))"
| "py_iter v = Inl (TypeErrorNotIterable (type_of v))"

subsection \<open>Strings\<close>

text \<open>\<^verbatim>\<open>str(n)\<close> of an integer: decimal digits, a minus sign when negative.\<close>

definition digit_char :: "nat \<Rightarrow> char" where
  "digit_char d = ''0123456789'' ! (d mod 10)"

fun str_nat :: "nat \<Rightarrow> string" where
  "str_nat n = (if n < 10 then [digit_char n] else str_nat (n div 10) @ [digit_char n])"

declare str_nat.simps [simp del]

definition str_int :: "int \<Rightarrow> string" where
  "str_int i = (if i < 0 then CHR ''-'' # str_nat (nat (- i)) else str_nat (nat i))"

text \<open>
  \<^verbatim>\<open>str(x)\<close> of a float, which is its \<^verbatim>\<open>repr\<close>: \<^verbatim>\<open>nan\<close>, \<^verbatim>\<open>inf\<close>, \<^verbatim>\<open>-inf\<close>, and
  for a finite float the shortest digits, in exponent notation (\<^verbatim>\<open>1e+16\<close>,
  \<^verbatim>\<open>1.5e-05\<close>, the exponent with a sign and at least two digits) when the decimal
  point is at position \<open>-4\<close> or below or above 16, and otherwise in positional notation
  with at least one digit after the point (\<^verbatim>\<open>0.001\<close>, \<^verbatim>\<open>1.5\<close>, \<^verbatim>\<open>2.0\<close>,
  \<^verbatim>\<open>100.0\<close>).
\<close>

definition digits_str :: "nat list \<Rightarrow> string" where
  "digits_str ds = map digit_char ds"

definition zeros :: "nat \<Rightarrow> string" where
  "zeros n = replicate n (CHR ''0'')"

definition exponent_str :: "int \<Rightarrow> string" where
  "exponent_str e =
     (if e < 0 then CHR ''-'' else CHR ''+'') #
     (if nat \<bar>e\<bar> < 10 then CHR ''0'' # str_nat (nat \<bar>e\<bar>) else str_nat (nat \<bar>e\<bar>))"

fun float_repr :: "pyfloat \<Rightarrow> string" where
  "float_repr FloatNaN = ''nan''"
| "float_repr (FloatInf negative) = (if negative then ''-inf'' else ''inf'')"
| "float_repr (FloatFinite negative ds p) =
     (if negative then ''-'' else []) @
     (if p \<le> - 4 \<or> 16 < p
      then digits_str (take 1 ds) @
           (if 1 < length ds then ''.'' @ digits_str (drop 1 ds) else []) @
           ''e'' @ exponent_str (p - 1)
      else if p \<le> 0 then ''0.'' @ zeros (nat (- p)) @ digits_str ds
      else if nat p < length ds
      then digits_str (take (nat p) ds) @ ''.'' @ digits_str (drop (nat p) ds)
      else digits_str ds @ zeros (nat p - length ds) @ ''.0'')"

text \<open>\<^verbatim>\<open>sep.join(parts)\<close>.\<close>

fun str_join :: "string \<Rightarrow> string list \<Rightarrow> string" where
  "str_join sep [] = []"
| "str_join sep [x] = x"
| "str_join sep (x # y # ys) = x @ sep @ str_join sep (y # ys)"

text \<open>\<^verbatim>\<open>s.rstrip(chars)\<close>: drops every trailing character that is in \<^verbatim>\<open>chars\<close>.\<close>

definition rstrip :: "string \<Rightarrow> string \<Rightarrow> string" where
  "rstrip chars s = rev (dropWhile (\<lambda>c. c \<in> set chars) (rev s))"

abbreviation LF :: char where "LF \<equiv> CHR 0x0A"
abbreviation CR :: char where "CR \<equiv> CHR 0x0D"
abbreviation DQUOTE :: char where "DQUOTE \<equiv> CHR 0x22"

subsection \<open>Running a computation over a list, stopping at the first exception\<close>

fun collect :: "('e + 'a) list \<Rightarrow> 'e + 'a list" where
  "collect [] = Inr []"
| "collect (r # rs) =
     (case r of
        Inl e \<Rightarrow> Inl e
      | Inr x \<Rightarrow> (case collect rs of Inl e \<Rightarrow> Inl e | Inr xs \<Rightarrow> Inr (x # xs)))"

section \<open>The libraries the module calls\<close>

text \<open>
  What the module takes from outside itself and the model does not fix: \<^verbatim>\<open>str()\<close>
  of an object that is neither a string, \<^verbatim>\<open>None\<close>, a boolean nor a number (the text
  of a container or of a stream object), \<^verbatim>\<open>np.array(data, dtype)\<close> and the bytes
  \<^verbatim>\<open>np.save\<close> writes for an array. Every function of the module that reaches one of
  them takes the library as an argument.
\<close>

record pylib =
  obj_str :: "pyval \<Rightarrow> string"
  np_array :: "pyval \<Rightarrow> string option \<Rightarrow> pyexc + pyval"
  np_save :: "pyval \<Rightarrow> pyexc + byte list"

subsection \<open>\<^verbatim>\<open>csv.writer(buffer, delimiter=",")\<close>\<close>

text \<open>
  The writer of the default dialect: a field is the string itself, empty for
  \<^verbatim>\<open>None\<close>, \<^verbatim>\<open>str(x)\<close> otherwise; a field holding the delimiter, the quote
  character or a line-terminator character is put in double quotes with its quotes
  doubled; a record of one empty field is written as two quotes; the record ends with
  carriage return and line feed.
\<close>

definition csv_special :: "char \<Rightarrow> bool" where
  "csv_special c = (c = CHR '','' \<or> c = DQUOTE \<or> c = CR \<or> c = LF)"

definition csv_quote :: "string \<Rightarrow> string" where
  "csv_quote s =
     (if list_ex csv_special s
      then DQUOTE # concat (map (\<lambda>c. if c = DQUOTE then [DQUOTE, DQUOTE] else [c]) s) @ [DQUOTE]
      else s)"

fun csv_field_text :: "pylib \<Rightarrow> pyval \<Rightarrow> string" where
  "csv_field_text lib (PStr s) = s"
| "csv_field_text lib PNone = []"
| "csv_field_text lib (PBool b) = (if b then ''True'' else ''False'')"
| "csv_field_text lib (PInt i) = str_int i"
| "csv_field_text lib (PFloat f) = float_repr f"
| "csv_field_text lib v = obj_str lib v"

definition csv_record :: "string list \<Rightarrow> string" where
  "csv_record fs =
     (if fs = [[]] then [DQUOTE, DQUOTE] else str_join '','' (map csv_quote fs)) @ [CR, LF]"

definition writerow :: "pylib \<Rightarrow> pyval \<Rightarrow> pyexc + string" where
  "writerow lib row =
     (case py_iter row of
        Inl e \<Rightarrow> Inl e
      | Inr xs \<Rightarrow> Inr (csv_record (map (csv_field_text lib) xs)))"

subsection \<open>\<^verbatim>\<open>json.dumps\<close>\<close>

text \<open>
  The encoder with its default settings: \<^verbatim>\<open>null\<close>, \<^verbatim>\<open>true\<close>, \<^verbatim>\<open>false\<close>, decimal
  integers, floats by their \<^verbatim>\<open>repr\<close> and, since \<^verbatim>\<open>allow_nan\<close> is true by default,
  the non-finite floats as \<^verbatim>\<open>NaN\<close>, \<^verbatim>\<open>Infinity\<close> and \<^verbatim>\<open>-Infinity\<close> without an
  error, strings escaped to ASCII, lists and tuples as arrays and dictionaries as
  objects with the separators \<^verbatim>\<open>", "\<close> and \<^verbatim>\<open>": "\<close>; any other object raises
  \<^verbatim>\<open>TypeError\<close> (not JSON serializable). The first object that cannot be encoded, in
  the order of the output, raises.
\<close>

abbreviation BSLASH :: char where "BSLASH \<equiv> CHR 0x5C"

definition hex_digit :: "nat \<Rightarrow> char" where
  "hex_digit d = ''0123456789abcdef'' ! (d mod 16)"

definition json_escape_char :: "char \<Rightarrow> string" where
  "json_escape_char c =
     (if c = DQUOTE then [BSLASH, DQUOTE]
      else if c = BSLASH then [BSLASH, BSLASH]
      else if c = LF then [BSLASH, CHR ''n'']
      else if c = CR then [BSLASH, CHR ''r'']
      else if c = CHR 0x09 then [BSLASH, CHR ''t'']
      else if c = CHR 0x08 then [BSLASH, CHR ''b'']
      else if c = CHR 0x0C then [BSLASH, CHR ''f'']
      else if (of_char c :: nat) < 32 \<or> 126 < (of_char c :: nat)
      then [BSLASH, CHR ''u'', CHR ''0'', CHR ''0'',
            hex_digit ((of_char c :: nat) div 16), hex_digit (of_char c :: nat)]
      else [c])"

definition json_str :: "string \<Rightarrow> string" where
  "json_str s = DQUOTE # concat (map json_escape_char s) @ [DQUOTE]"

fun json_float :: "pyfloat \<Rightarrow> string" where
  "json_float FloatNaN = ''NaN''"
| "json_float (FloatInf negative) = (if negative then ''-Infinity'' else ''Infinity'')"
| "json_float (FloatFinite negative ds p) = float_repr (FloatFinite negative ds p)"

fun json_encode :: "pyval \<Rightarrow> pyexc + string" where
  "json_encode PNone = Inr ''null''"
| "json_encode (PBool b) = Inr (if b then ''true'' else ''false'')"
| "json_encode (PInt i) = Inr (str_int i)"
| "json_encode (PStr s) = Inr (json_str s)"
| "json_encode (PList xs) =
     (case collect (map json_encode xs) of
        Inl e \<Rightarrow> Inl e
      | Inr ss \<Rightarrow> Inr (''['' @ str_join '', '' ss @ '']''))"
| "json_encode (PTuple xs) =
     (case collect (map json_encode xs) of
        Inl e \<Rightarrow> Inl e
      | Inr ss \<Rightarrow> Inr (''['' @ str_join '', '' ss @ '']''))"
| "json_encode (PDict kvs) =
     (case collect (map (\<lambda>kv. case json_encode (snd kv) of
                                 Inl e \<Rightarrow> Inl e
                               | Inr s \<Rightarrow> Inr (json_str (fst kv) @ '': '' @ s)) kvs) of
        Inl e \<Rightarrow> Inl e
      | Inr ss \<Rightarrow> Inr (''{'' @ str_join '', '' ss @ ''}''))"
| "json_encode (PFloat f) = Inr (json_float f)"
| "json_encode v = Inl (TypeErrorNotJSON (type_of v))"

definition json_dumps :: "pyval \<Rightarrow> pyexc + pyval" where
  "json_dumps v = (case json_encode v of Inl e \<Rightarrow> Inl e | Inr s \<Rightarrow> Inr (PStr s))"

subsection \<open>Dictionary comprehension\<close>

text \<open>\<^verbatim>\<open>d[k] = v\<close>: an existing key keeps its place and takes the new value, a new key
  goes to the end.\<close>

fun dict_setitem :: "(string \<times> pyval) list \<Rightarrow> string \<Rightarrow> pyval \<Rightarrow> (string \<times> pyval) list" where
  "dict_setitem [] k v = [(k, v)]"
| "dict_setitem (kv # kvs) k v =
     (if fst kv = k then (k, v) # kvs else kv # dict_setitem kvs k v)"

text \<open>\<^verbatim>\<open>{key: f(value) for key, value in data.items()}\<close>: the items are stored one after
  the other into an empty dictionary.\<close>

definition dict_comprehension ::
  "(pyval \<Rightarrow> pyval) \<Rightarrow> (string \<times> pyval) list \<Rightarrow> (string \<times> pyval) list" where
  "dict_comprehension f kvs = foldl (\<lambda>d kv. dict_setitem d (fst kv) (f (snd kv))) [] kvs"

section \<open>The serializers\<close>

subsection \<open>\<^verbatim>\<open>CSVSerializer\<close>\<close>

definition is_sequence_like :: "pyval \<Rightarrow> bool" where
  "is_sequence_like data = (has_iter data \<and> has_getitem data)"

definition CSVSerializer_serialize_row :: "pylib \<Rightarrow> pyval \<Rightarrow> pyexc + string" where
  "CSVSerializer_serialize_row lib data0 =
     (if is_str data0 then (case data0 of PStr s \<Rightarrow> Inr s | _ \<Rightarrow> Inr [])
      else
        let data = (if is_ndarray data0 then flatten data0 else data0) in
        if has_len data then
          (case py_len data of
             Inl e \<Rightarrow> Inl e
           | Inr n \<Rightarrow>
               if n = 0 then Inl (ValueError ''Cannot serialize empty array'')
               else (case writerow lib data of
                       Inl e \<Rightarrow> Inl e
                     | Inr out \<Rightarrow> Inr (rstrip [CR, LF] out)))
        else Inl (ValueErrorType ''Unable to handle input format: '' (type_of data)))"

definition CSVSerializer_serialize :: "pylib \<Rightarrow> pyval \<Rightarrow> pyexc + pyval" where
  "CSVSerializer_serialize lib data =
     (case py_read data of
        Some content \<Rightarrow> Inr content
      | None \<Rightarrow>
          let is_mutable_sequence_like = (is_sequence_like data \<and> has_setitem data) in
          (case py_len data of
             Inl e \<Rightarrow> Inl e
           | Inr n \<Rightarrow>
               (case (if 0 < n
                      then (case py_getitem0 data of
                              Inl e \<Rightarrow> Inl e
                            | Inr x \<Rightarrow> Inr (is_sequence_like x))
                      else Inr False) of
                  Inl e \<Rightarrow> Inl e
                | Inr has_multiple_rows \<Rightarrow>
                    if is_mutable_sequence_like \<and> has_multiple_rows
                    then (case py_iter data of
                            Inl e \<Rightarrow> Inl e
                          | Inr rows \<Rightarrow>
                              (case collect (map (CSVSerializer_serialize_row lib) rows) of
                                 Inl e \<Rightarrow> Inl e
                               | Inr encoded \<Rightarrow> Inr (PStr (str_join [LF] encoded))))
                    else (case CSVSerializer_serialize_row lib data of
                            Inl e \<Rightarrow> Inl e
                          | Inr s \<Rightarrow> Inr (PStr s)))))"

subsection \<open>\<^verbatim>\<open>NumpySerializer\<close>\<close>

definition NumpySerializer_serialize_array :: "pylib \<Rightarrow> pyval \<Rightarrow> pyexc + pyval" where
  "NumpySerializer_serialize_array lib array =
     (case np_save lib array of Inl e \<Rightarrow> Inl e | Inr bs \<Rightarrow> Inr (PBytes bs))"

definition NumpySerializer_serialize :: "pylib \<Rightarrow> string option \<Rightarrow> pyval \<Rightarrow> pyexc + pyval" where
  "NumpySerializer_serialize lib dtype data =
     (if is_ndarray data then
        (if array_size data = 0 then Inl (ValueError ''Cannot serialize empty array.'')
         else NumpySerializer_serialize_array lib data)
      else if is_list data then
        (case py_len data of
           Inl e \<Rightarrow> Inl e
         | Inr n \<Rightarrow>
             if n = 0 then Inl (ValueError ''Cannot serialize empty array.'')
             else (case np_array lib data dtype of
                     Inl e \<Rightarrow> Inl e
                   | Inr array \<Rightarrow> NumpySerializer_serialize_array lib array))
      else
        (case py_read data of
           Some content \<Rightarrow> Inr content
         | None \<Rightarrow>
             (case np_array lib data None of
                Inl e \<Rightarrow> Inl e
              | Inr array \<Rightarrow> NumpySerializer_serialize_array lib array)))"

subsection \<open>\<^verbatim>\<open>JSONSerializer\<close>\<close>

definition JSONSerializer_serialize :: "pyval \<Rightarrow> pyexc + pyval" where
  "JSONSerializer_serialize data =
     (case data of
        PDict kvs \<Rightarrow>
          json_dumps (PDict (dict_comprehension (\<lambda>v. if is_ndarray v then tolist v else v) kvs))
      | _ \<Rightarrow>
          (case py_read data of
             Some content \<Rightarrow> Inr content
           | None \<Rightarrow> if is_ndarray data then json_dumps (tolist data) else json_dumps data))"

subsection \<open>The three classes behind one interface\<close>

datatype serializer = CSVSerializer | NumpySerializer "string option" | JSONSerializer

fun CONTENT_TYPE :: "serializer \<Rightarrow> string" where
  "CONTENT_TYPE CSVSerializer = ''text/csv''"
| "CONTENT_TYPE (NumpySerializer dtype) = ''application/x-npy''"
| "CONTENT_TYPE JSONSerializer = ''application/json''"

fun serialize :: "pylib \<Rightarrow> serializer \<Rightarrow> pyval \<Rightarrow> pyexc + pyval" where
  "serialize lib CSVSerializer data = CSVSerializer_serialize lib data"
| "serialize lib (NumpySerializer dtype) data = NumpySerializer_serialize lib dtype data"
| "serialize lib JSONSerializer data = JSONSerializer_serialize data"

section \<open>Predicates used to state the properties\<close>

text \<open>A value that is a NumPy array or holds one somewhere inside a list, a tuple or
  the values of a dictionary.\<close>

fun contains_ndarray :: "pyval \<Rightarrow> bool" where
  "contains_ndarray (PArray dt sh es) = True"
| "contains_ndarray (PList xs) = list_ex contains_ndarray xs"
| "contains_ndarray (PTuple xs) = list_ex contains_ndarray xs"
| "contains_ndarray (PDict kvs) = list_ex (\<lambda>kv. contains_ndarray (snd kv)) kvs"
| "contains_ndarray v = False"

text \<open>A number is an integer or a float; \<open>number_str\<close> is \<^verbatim>\<open>str(x)\<close> of a number.\<close>

fun is_number :: "pyval \<Rightarrow> bool" where
  "is_number (PInt _) = True"
| "is_number (PFloat _) = True"
| "is_number _ = False"

fun number_str :: "pyval \<Rightarrow> string" where
  "number_str (PInt i) = str_int i"
| "number_str (PFloat f) = float_repr f"
| "number_str _ = []"

text \<open>The characters \<^verbatim>\<open>str(x)\<close> of a number is made of.\<close>

definition number_char :: "char \<Rightarrow> bool" where
  "number_char c = (c \<in> set ''0123456789.e+-infa'')"

section \<open>Auxiliary facts\<close>

subsection \<open>Collecting results\<close>

lemma collect_map_Inr: "collect (map Inr xs) = Inr xs"
  by (induction xs) auto

lemma collect_Inr_D: "collect rs = Inr xs \<Longrightarrow> rs = map Inr xs"
  by (induction rs arbitrary: xs) (auto split: sum.splits)

lemma collect_Inl_mem: "collect rs = Inl e \<Longrightarrow> Inl e \<in> set rs"
  by (induction rs) (auto split: sum.splits)

lemma collect_mem_Inl: "Inl e \<in> set rs \<Longrightarrow> \<exists>e'. collect rs = Inl e'"
  by (induction rs) (auto split: sum.splits)

lemma collect_first_Inl:
  "k < length rs \<Longrightarrow> rs ! k = Inl e \<Longrightarrow> (\<forall>i<k. \<exists>x. rs ! i = Inr x) \<Longrightarrow> collect rs = Inl e"
proof (induction rs arbitrary: k)
  case Nil
  then show ?case by simp
next
  case (Cons r rs)
  show ?case
  proof (cases k)
    case 0
    with Cons.prems show ?thesis by simp
  next
    case (Suc j)
    from Cons.prems Suc obtain x where r: "r = Inr x" by fastforce
    have "collect rs = Inl e"
    proof (rule Cons.IH)
      show "j < length rs" using Cons.prems Suc by simp
      show "rs ! j = Inl e" using Cons.prems Suc by simp
      show "\<forall>i<j. \<exists>x. rs ! i = Inr x"
      proof (intro allI impI)
        fix i assume "i < j"
        then have "Suc i < k" using Suc by simp
        with Cons.prems(3) have "\<exists>x. (r # rs) ! Suc i = Inr x" by blast
        then show "\<exists>x. rs ! i = Inr x" by simp
      qed
    qed
    with r show ?thesis by simp
  qed
qed

subsection \<open>The JSON encoder\<close>

lemma json_encode_error_kind: "json_encode v = Inl e \<Longrightarrow> \<exists>t. e = TypeErrorNotJSON t"
proof (induction v arbitrary: e rule: json_encode.induct)
  case (5 xs)
  then show ?case
    by (auto split: sum.splits dest!: collect_Inl_mem)
next
  case (6 xs)
  then show ?case
    by (auto split: sum.splits dest!: collect_Inl_mem)
next
  case (7 kvs)
  then show ?case
    by (auto split: sum.splits dest!: collect_Inl_mem)
qed auto


lemma json_encode_contains_ndarray: "contains_ndarray v \<Longrightarrow> \<exists>e. json_encode v = Inl e"
proof (induction v rule: json_encode.induct)
  case (5 xs)
  then obtain x where x: "x \<in> set xs" "contains_ndarray x" by (auto simp: list_ex_iff)
  with 5 obtain e where "json_encode x = Inl e" by blast
  with x have "Inl e \<in> set (map json_encode xs)" by force
  from collect_mem_Inl[OF this] show ?case by auto
next
  case (6 xs)
  then obtain x where x: "x \<in> set xs" "contains_ndarray x" by (auto simp: list_ex_iff)
  with 6 obtain e where "json_encode x = Inl e" by blast
  with x have "Inl e \<in> set (map json_encode xs)" by force
  from collect_mem_Inl[OF this] show ?case by auto
next
  case (7 kvs)
  then obtain kv where kv: "kv \<in> set kvs" "contains_ndarray (snd kv)" by (auto simp: list_ex_iff)
  with 7 obtain e where e: "json_encode (snd kv) = Inl e" by blast
  let ?f = "\<lambda>kv. case json_encode (snd kv) of Inl e \<Rightarrow> Inl e
                 | Inr s \<Rightarrow> Inr (json_str (fst kv) @ '': '' @ s)"
  from e have "?f kv = Inl e" by simp
  with kv have "Inl e \<in> set (map ?f kvs)" by force
  from collect_mem_Inl[OF this] show ?case by auto
qed auto

subsection \<open>Dictionary comprehension over distinct keys\<close>

lemma dict_setitem_append:
  "k \<notin> fst ` set d \<Longrightarrow> dict_setitem d k v = d @ [(k, v)]"
  by (induction d) auto

lemma foldl_dict_setitem:
  "distinct (map fst kvs) \<Longrightarrow> fst ` set d \<inter> fst ` set kvs = {} \<Longrightarrow>
   foldl (\<lambda>d kv. dict_setitem d (fst kv) (f (snd kv))) d kvs = d @ map (\<lambda>kv. (fst kv, f (snd kv))) kvs"
proof (induction kvs arbitrary: d)
  case Nil
  then show ?case by simp
next
  case (Cons kv kvs)
  have 1: "dict_setitem d (fst kv) (f (snd kv)) = d @ [(fst kv, f (snd kv))]"
    using Cons.prems by (intro dict_setitem_append) auto
  have 2: "fst ` set (d @ [(fst kv, f (snd kv))]) \<inter> fst ` set kvs = {}"
    using Cons.prems by auto
  have 3: "distinct (map fst kvs)" using Cons.prems by simp
  show ?case using Cons.IH[OF 3 2] 1 by simp
qed

lemma dict_comprehension_distinct:
  "distinct (map fst kvs) \<Longrightarrow> dict_comprehension f kvs = map (\<lambda>kv. (fst kv, f (snd kv))) kvs"
  unfolding dict_comprehension_def using foldl_dict_setitem[of kvs "[]" f] by simp

subsection \<open>Objects without a length\<close>

text \<open>\<^verbatim>\<open>CSVSerializer.serialize\<close> calls \<^verbatim>\<open>len(data)\<close> on every object that has no
  \<^verbatim>\<open>read\<close>, before it looks at the shape of the data.\<close>

lemma csv_no_len_raises_type_error:
  "\<not> has_read data \<Longrightarrow> \<not> has_len data \<Longrightarrow>
   CSVSerializer_serialize lib data = Inl (TypeErrorNoLen (type_of data))"
  by (cases data) (simp_all add: has_read_def CSVSerializer_serialize_def)

subsection \<open>Encoding the items of a dictionary\<close>

lemma str_nat_digit: "n < 10 \<Longrightarrow> str_nat n = [digit_char n]"
  by (simp add: str_nat.simps)

lemma map_json_items:
  "map (\<lambda>kv. json_encode (f (snd kv))) kvs = map Inr encs \<Longrightarrow>
   map (\<lambda>kv. case json_encode (snd kv) of Inl e \<Rightarrow> Inl e
                | Inr s \<Rightarrow> Inr (json_str (fst kv) @ '': '' @ s))
       (map (\<lambda>kv. (fst kv, f (snd kv))) kvs) =
   map Inr (map2 (\<lambda>kv s. json_str (fst kv) @ '': '' @ s) kvs encs)"
proof (induction kvs arbitrary: encs)
  case Nil
  then show ?case by simp
next
  case (Cons kv kvs)
  then obtain s ss where encs: "encs = s # ss" by (cases encs) auto
  with Cons.prems have hd: "json_encode (f (snd kv)) = Inr s"
    and tl: "map (\<lambda>kv. json_encode (f (snd kv))) kvs = map Inr ss" by auto
  from Cons.IH[OF tl] hd show ?case by (simp add: encs)
qed

lemma json_items_first_error:
  assumes "k < length kvs"
    and "map (\<lambda>kv. json_encode (f (snd kv))) (take k kvs) = map Inr encs"
    and "json_encode (f (snd (kvs ! k))) = Inl e"
  shows "collect (map (\<lambda>kv. case json_encode (snd kv) of Inl e \<Rightarrow> Inl e
                | Inr s \<Rightarrow> Inr (json_str (fst kv) @ '': '' @ s))
       (map (\<lambda>kv. (fst kv, f (snd kv))) kvs)) = Inl e"
proof (rule collect_first_Inl[where k = k])
  let ?g = "\<lambda>kv. case json_encode (snd kv) of Inl e \<Rightarrow> Inl e
                | Inr s \<Rightarrow> Inr (json_str (fst kv) @ '': '' @ s)"
  let ?rs = "map ?g (map (\<lambda>kv. (fst kv, f (snd kv))) kvs)"
  show "k < length ?rs" using assms(1) by simp
  show "?rs ! k = Inl e" using assms(1,3) by simp
  show "\<forall>i<k. \<exists>x. ?rs ! i = Inr x"
  proof (intro allI impI)
    fix i assume ik: "i < k"
    have "length encs = k" using assms(1,2) by (metis length_map length_take min.absorb2 less_imp_le)
    from assms(2) have "map (\<lambda>kv. json_encode (f (snd kv))) (take k kvs) ! i = map Inr encs ! i"
      by simp
    with ik assms(1) \<open>length encs = k\<close> have "json_encode (f (snd (kvs ! i))) = Inr (encs ! i)"
      by simp
    with ik assms(1) show "\<exists>x. ?rs ! i = Inr x" by simp
  qed
qed

subsection \<open>The emptiness checks\<close>

lemma csv_row_empty:
  "\<not> is_str row \<Longrightarrow> py_len row = Inr 0 \<Longrightarrow>
   CSVSerializer_serialize_row lib row = Inl (ValueError ''Cannot serialize empty array'')"
  by (cases row) (auto simp: CSVSerializer_serialize_row_def split: list.splits)

lemma csv_empty:
  "\<not> is_str data \<Longrightarrow> py_len data = Inr 0 \<Longrightarrow>
   CSVSerializer_serialize lib data = Inl (ValueError ''Cannot serialize empty array'')"
proof -
  assume a: "\<not> is_str data" "py_len data = Inr 0"
  then have "py_read data = None" by (cases data) auto
  with a csv_row_empty[OF a, of lib] show ?thesis
    by (simp add: CSVSerializer_serialize_def)
qed

lemma numpy_empty_list:
  "NumpySerializer_serialize lib dtype (PList []) = Inl (ValueError ''Cannot serialize empty array.'')"
  by (simp add: NumpySerializer_serialize_def)

lemma numpy_empty_array:
  "is_ndarray a \<Longrightarrow> array_size a = 0 \<Longrightarrow>
   NumpySerializer_serialize lib dtype a = Inl (ValueError ''Cannot serialize empty array.'')"
  by (simp add: NumpySerializer_serialize_def)

lemma collect_map_first_error:
  assumes "k < length xs" and "map f (take k xs) = map Inr ys" and "f (xs ! k) = Inl e"
  shows "collect (map f xs) = Inl e"
proof (rule collect_first_Inl[where k = k])
  show "k < length (map f xs)" using assms(1) by simp
  show "map f xs ! k = Inl e" using assms(1,3) by simp
  show "\<forall>i<k. \<exists>x. map f xs ! i = Inr x"
  proof (intro allI impI)
    fix i assume ik: "i < k"
    have len: "length ys = k"
      using assms(1,2) by (metis length_map length_take min.absorb2 less_imp_le)
    from assms(2) have "map f (take k xs) ! i = map Inr ys ! i" by simp
    with ik assms(1) len have "f (xs ! i) = Inr (ys ! i)" by simp
    with ik assms(1) show "\<exists>x. map f xs ! i = Inr x" by simp
  qed
qed

subsection \<open>Rows of integers\<close>

lemma digit_char_mem: "digit_char d \<in> set ''0123456789''"
  unfolding digit_char_def by (rule nth_mem) simp

lemma str_nat_chars: "set (str_nat n) \<subseteq> set ''0123456789'' \<and> str_nat n \<noteq> []"
proof (induction n rule: str_nat.induct)
  case (1 n)
  show ?case
  proof (cases "n < 10")
    case True
    then have "str_nat n = [digit_char n]" by (simp add: str_nat.simps)
    with digit_char_mem[of n] show ?thesis by simp
  next
    case False
    then have eq: "str_nat n = str_nat (n div 10) @ [digit_char n]"
      by (subst str_nat.simps) simp
    from 1 False have "set (str_nat (n div 10)) \<subseteq> set ''0123456789''" by simp
    with digit_char_mem[of n] eq show ?thesis by simp
  qed
qed

lemma str_nat_last: "last (str_nat n) = digit_char n"
  by (subst str_nat.simps) simp

lemma str_int_chars: "c \<in> set (str_int i) \<Longrightarrow> c \<in> set ''-0123456789''"
proof -
  assume c: "c \<in> set (str_int i)"
  define D where "D = set ''0123456789''"
  have a: "set (str_nat k) \<subseteq> D" for k
    unfolding D_def using str_nat_chars by blast
  have b: "set ''-0123456789'' = insert (CHR ''-'') D"
    unfolding D_def by simp
  have "set (str_int i) \<subseteq> insert (CHR ''-'') D"
  proof (cases "i < 0")
    case True
    then have "str_int i = CHR ''-'' # str_nat (nat (- i))" by (simp add: str_int_def)
    with a[of "nat (- i)"] show ?thesis by auto
  next
    case False
    then have "str_int i = str_nat (nat i)" by (simp add: str_int_def)
    with a[of "nat i"] show ?thesis by auto
  qed
  with c show ?thesis unfolding b by blast
qed

lemma str_int_nonempty: "str_int i \<noteq> []"
  using str_nat_chars by (simp add: str_int_def)

lemma str_int_last: "last (str_int i) \<in> set ''0123456789''"
  using str_nat_chars digit_char_mem by (simp add: str_int_def str_nat_last)

lemma csv_quote_str_int: "csv_quote (str_int i) = str_int i"
proof -
  have "\<not> csv_special c" if "c \<in> set (str_int i)" for c
    using str_int_chars[OF that] by (auto simp: csv_special_def)
  then have "\<not> list_ex csv_special (str_int i)"
    unfolding list_ex_iff by blast
  then show ?thesis by (simp add: csv_quote_def)
qed

lemma str_join_nonempty: "xs \<noteq> [] \<Longrightarrow> \<forall>x\<in>set xs. x \<noteq> [] \<Longrightarrow> str_join sep xs \<noteq> []"
  by (induction sep xs rule: str_join.induct) auto

lemma str_join_last:
  "xs \<noteq> [] \<Longrightarrow> \<forall>x\<in>set xs. x \<noteq> [] \<Longrightarrow> last (str_join sep xs) = last (last xs)"
proof (induction sep xs rule: str_join.induct)
  case (3 sep x y ys)
  then have "str_join sep (y # ys) \<noteq> []" by (intro str_join_nonempty) auto
  with 3 show ?case by simp
qed auto

lemma rstrip_terminator:
  assumes "s \<noteq> []" and "last s \<noteq> CR" and "last s \<noteq> LF"
  shows "rstrip [CR, LF] (s @ [CR, LF]) = s"
proof -
  have "dropWhile (\<lambda>c. c \<in> set [CR, LF]) (rev s) = rev s"
    using assms by (simp add: dropWhile_eq_self_iff hd_rev)
  then show ?thesis by (simp add: rstrip_def)
qed

lemma joined_ints:
  assumes "ns \<noteq> []"
  shows "str_join '','' (map str_int ns) \<noteq> [] \<and>
         last (str_join '','' (map str_int ns)) \<noteq> CR \<and>
         last (str_join '','' (map str_int ns)) \<noteq> LF"
proof -
  let ?xs = "map str_int ns"
  have ne: "?xs \<noteq> []" using assms by simp
  have all: "\<forall>x\<in>set ?xs. x \<noteq> []" using str_int_nonempty by auto
  have "last (str_join '','' ?xs) = last (last ?xs)" using ne all by (rule str_join_last)
  also have "last ?xs = str_int (last ns)" using assms by (simp add: last_map)
  finally have "last (str_join '','' ?xs) \<in> set ''0123456789''" using str_int_last by simp
  then have "last (str_join '','' ?xs) \<noteq> CR \<and> last (str_join '','' ?xs) \<noteq> LF" by auto
  with str_join_nonempty[OF ne all] show ?thesis by simp
qed

lemma writerow_ints:
  assumes "ns \<noteq> []" and "py_iter row = Inr (map PInt ns)"
  shows "writerow lib row = Inr (str_join '','' (map str_int ns) @ [CR, LF])"
proof -
  have f: "map (csv_field_text lib) (map PInt ns) = map str_int ns" by simp
  have "map str_int ns \<noteq> [[]]" using str_int_nonempty by (cases ns) auto
  moreover have "map csv_quote (map str_int ns) = map str_int ns"
    by (simp add: csv_quote_str_int)
  ultimately have "csv_record (map str_int ns) = str_join '','' (map str_int ns) @ [CR, LF]"
    by (simp add: csv_record_def del: map_map)
  with assms(2) f show ?thesis by (simp add: writerow_def del: map_map)
qed

lemma csv_row_ints:
  assumes "ns \<noteq> []" and "\<not> is_str row" and "\<not> is_ndarray row" and "has_len row"
    and "py_len row = Inr (length ns)" and "py_iter row = Inr (map PInt ns)"
  shows "CSVSerializer_serialize_row lib row = Inr (str_join '','' (map str_int ns))"
  using assms writerow_ints[OF assms(1,6), of lib] joined_ints[OF assms(1)]
  by (simp add: CSVSerializer_serialize_row_def rstrip_terminator)

subsection \<open>Rows of numbers\<close>

lemma number_char_literals:
  "number_char (CHR ''0'')" "number_char (CHR ''.'')" "number_char (CHR ''e'')"
  "number_char (CHR ''+'')" "number_char (CHR ''-'')" "number_char (CHR ''i'')"
  "number_char (CHR ''n'')" "number_char (CHR ''f'')" "number_char (CHR ''a'')"
  by (simp_all add: number_char_def)

lemma number_char_plain:
  "number_char c \<Longrightarrow> \<not> csv_special c \<and> c \<noteq> CR \<and> c \<noteq> LF"
  by (auto simp: number_char_def csv_special_def)

lemma digit_char_number: "number_char (digit_char d)"
  using digit_char_mem[of d] by (auto simp: number_char_def)

lemma digits_str_number: "list_all number_char (digits_str ds)"
  by (simp add: digits_str_def list_all_iff digit_char_number)

lemma zeros_number: "list_all number_char (zeros n)"
  by (simp add: zeros_def list_all_iff number_char_literals)

lemma str_nat_number: "list_all number_char (str_nat n)"
proof (induction n rule: str_nat.induct)
  case (1 n)
  show ?case
  proof (cases "n < 10")
    case True
    then have "str_nat n = [digit_char n]" by (simp add: str_nat.simps)
    then show ?thesis by (simp add: digit_char_number)
  next
    case False
    then have eq: "str_nat n = str_nat (n div 10) @ [digit_char n]"
      by (subst str_nat.simps) simp
    from 1 False have "list_all number_char (str_nat (n div 10))" by simp
    then show ?thesis by (simp add: eq digit_char_number)
  qed
qed

lemma str_int_number: "list_all number_char (str_int i)"
  by (simp add: str_int_def str_nat_number number_char_literals)

lemma exponent_str_number: "list_all number_char (exponent_str e)"
  by (simp add: exponent_str_def str_nat_number number_char_literals)

lemma float_repr_number: "list_all number_char (float_repr f)"
  by (cases f)
     (simp_all add: digits_str_number zeros_number exponent_str_number number_char_literals)

lemma float_repr_nonempty: "float_repr f \<noteq> []"
  by (cases f) (simp_all add: exponent_str_def)

lemma number_str_number: "is_number x \<Longrightarrow> list_all number_char (number_str x)"
  by (cases x) (simp_all add: str_int_number float_repr_number)

lemma number_str_nonempty: "is_number x \<Longrightarrow> number_str x \<noteq> []"
  by (cases x) (simp_all add: str_int_nonempty float_repr_nonempty)

lemma number_str_last:
  assumes "is_number x"
  shows "last (number_str x) \<noteq> CR \<and> last (number_str x) \<noteq> LF"
proof -
  have "last (number_str x) \<in> set (number_str x)"
    using number_str_nonempty[OF assms] by simp
  with number_str_number[OF assms] have "number_char (last (number_str x))"
    by (simp add: list_all_iff)
  then show ?thesis using number_char_plain by blast
qed

lemma csv_quote_number: "is_number x \<Longrightarrow> csv_quote (number_str x) = number_str x"
proof -
  assume "is_number x"
  from number_str_number[OF this] have "\<not> list_ex csv_special (number_str x)"
    unfolding list_ex_iff list_all_iff using number_char_plain by blast
  then show ?thesis by (simp add: csv_quote_def)
qed

lemma csv_field_text_number: "is_number x \<Longrightarrow> csv_field_text lib x = number_str x"
  by (cases x) simp_all

lemma number_not_sequence_like: "is_number x \<Longrightarrow> \<not> is_sequence_like x"
  by (cases x) (simp_all add: is_sequence_like_def)

lemma joined_numbers:
  assumes "xs \<noteq> []" and "list_all is_number xs"
  shows "str_join '','' (map number_str xs) \<noteq> [] \<and>
         last (str_join '','' (map number_str xs)) \<noteq> CR \<and>
         last (str_join '','' (map number_str xs)) \<noteq> LF"
proof -
  let ?ts = "map number_str xs"
  have ne: "?ts \<noteq> []" using assms(1) by simp
  have all: "\<forall>t\<in>set ?ts. t \<noteq> []"
    using assms(2) number_str_nonempty by (auto simp: list_all_iff)
  have "last (str_join '','' ?ts) = last (last ?ts)" using ne all by (rule str_join_last)
  also have "last ?ts = number_str (last xs)" using assms(1) by (simp add: last_map)
  finally have l: "last (str_join '','' ?ts) = last (number_str (last xs))" .
  have "is_number (last xs)" using assms by (simp add: list_all_iff)
  from number_str_last[OF this] l str_join_nonempty[OF ne all] show ?thesis by simp
qed

lemma writerow_numbers:
  assumes "xs \<noteq> []" and "list_all is_number xs" and "py_iter row = Inr xs"
  shows "writerow lib row = Inr (str_join '','' (map number_str xs) @ [CR, LF])"
proof -
  have f: "map (csv_field_text lib) xs = map number_str xs"
    using assms(2) by (simp add: list_all_iff csv_field_text_number)
  have "map number_str xs \<noteq> [[]]"
  proof
    assume "map number_str xs = [[]]"
    then obtain x where "xs = [x]" "number_str x = []" by (cases xs) auto
    with assms(2) number_str_nonempty[of x] show False by simp
  qed
  moreover have "map csv_quote (map number_str xs) = map number_str xs"
    using assms(2) by (simp add: list_all_iff csv_quote_number)
  ultimately have c: "csv_record (map number_str xs) = str_join '','' (map number_str xs) @ [CR, LF]"
    by (simp add: csv_record_def del: map_map)
  have "writerow lib row = Inr (csv_record (map (csv_field_text lib) xs))"
    using assms(3) by (simp add: writerow_def)
  also have "\<dots> = Inr (csv_record (map number_str xs))" by (simp only: f)
  also have "\<dots> = Inr (str_join '','' (map number_str xs) @ [CR, LF])" by (simp only: c)
  finally show ?thesis .
qed

lemma csv_row_numbers:
  assumes "xs \<noteq> []" and "list_all is_number xs"
    and "\<not> is_str row" and "\<not> is_ndarray row" and "has_len row"
    and "py_len row = Inr (length xs)" and "py_iter row = Inr xs"
  shows "CSVSerializer_serialize_row lib row = Inr (str_join '','' (map number_str xs))"
  using assms writerow_numbers[OF assms(1,2,7), of lib] joined_numbers[OF assms(1,2)]
  by (simp add: CSVSerializer_serialize_row_def rstrip_terminator)

subsection \<open>A non-empty array goes to \<^verbatim>\<open>np.save\<close> as it is\<close>


section \<open>The properties\<close>

text \<open>
  C9. The content types of the three serializers are the strings \<^verbatim>\<open>text/csv\<close>,
  \<^verbatim>\<open>application/x-npy\<close> and \<^verbatim>\<open>application/json\<close>. \<open>CONTENT_TYPE\<close> is a class
  attribute: it takes the serializer (for the NumPy serializer, whatever its dtype)
  and no data, so it cannot depend on what \<open>serialize\<close> is given.
\<close>

theorem content_type_constants:
  "CONTENT_TYPE CSVSerializer = ''text/csv'' \<and>
   CONTENT_TYPE (NumpySerializer dtype) = ''application/x-npy'' \<and>
   CONTENT_TYPE JSONSerializer = ''application/json''"
  by simp

text \<open>
  C7. An object with a \<^verbatim>\<open>read\<close> attribute that is not a dictionary, a list or an
  array is passed through by each of the three serializers: \<open>serialize\<close> returns what
  \<^verbatim>\<open>data.read()\<close> returns and raises nothing.
\<close>

theorem stream_passthrough:
  assumes "has_read data" and "\<not> is_dict data" and "\<not> is_list data" and "\<not> is_ndarray data"
  shows "\<exists>content. py_read data = Some content \<and> serialize lib s data = Inr content"
proof -
  from assms(1) obtain content where c: "data = PStream content"
    by (cases data) (auto simp: has_read_def)
  show ?thesis
    by (cases s)
       (simp_all add: c CSVSerializer_serialize_def NumpySerializer_serialize_def
          JSONSerializer_serialize_def)
qed

theorem stream_passthrough_witness:
  "has_read (PStream (PStr ''1,2'')) \<and>
   \<not> is_dict (PStream (PStr ''1,2'')) \<and> \<not> is_list (PStream (PStr ''1,2'')) \<and>
   \<not> is_ndarray (PStream (PStr ''1,2'')) \<and>
   serialize \<lparr>obj_str = (\<lambda>v. []), np_array = (\<lambda>v d. Inr v), np_save = (\<lambda>v. Inr [])\<rparr>
     CSVSerializer (PStream (PStr ''1,2'')) = Inr (PStr ''1,2'') \<and>
   serialize \<lparr>obj_str = (\<lambda>v. []), np_array = (\<lambda>v d. Inr v), np_save = (\<lambda>v. Inr [])\<rparr>
     (NumpySerializer None) (PStream (PStr ''1,2'')) = Inr (PStr ''1,2'') \<and>
   serialize \<lparr>obj_str = (\<lambda>v. []), np_array = (\<lambda>v d. Inr v), np_save = (\<lambda>v. Inr [])\<rparr>
     JSONSerializer (PStream (PStr ''1,2'')) = Inr (PStr ''1,2'')"
proof -
  let ?lib = "\<lparr>obj_str = (\<lambda>v. []), np_array = (\<lambda>v d. Inr v), np_save = (\<lambda>v. Inr [])\<rparr>"
  let ?data = "PStream (PStr ''1,2'')"
  have h: "has_read ?data" "\<not> is_dict ?data" "\<not> is_list ?data" "\<not> is_ndarray ?data"
    by (simp_all add: has_read_def)
  from stream_passthrough [OF h, of ?lib CSVSerializer]
    stream_passthrough [OF h, of ?lib "NumpySerializer None"]
    stream_passthrough [OF h, of ?lib JSONSerializer] h
  show ?thesis by simp
qed

text \<open>
  C2. An integer has no \<^verbatim>\<open>read\<close>, is not a string and has no length. The row
  encoder \<^verbatim>\<open>_serialize_row\<close> rejects it with the \<^verbatim>\<open>ValueError\<close> "Unable to handle
  input format" that names its type, but \<open>serialize\<close> never gets there:
  \<^verbatim>\<open>len(data)\<close> raises \<^verbatim>\<open>TypeError\<close> first.
\<close>

theorem csv_scalar_raises_type_error:
  "\<not> has_read (PInt 5) \<and> \<not> is_str (PInt 5) \<and> \<not> has_len (PInt 5) \<and>
   serialize lib CSVSerializer (PInt 5) = Inl (TypeErrorNoLen T_int) \<and>
   CSVSerializer_serialize_row lib (PInt 5) =
     Inl (ValueErrorType ''Unable to handle input format: '' T_int)"
  by (simp add: has_read_def CSVSerializer_serialize_def CSVSerializer_serialize_row_def)

text \<open>
  C10. Arrays are converted to nested lists only as direct values of the dictionary.
  A value that is not an array but holds one inside a list, a tuple or a nested
  dictionary reaches \<^verbatim>\<open>json.dumps\<close> as it is, and \<open>serialize\<close> raises the
  encoder's \<^verbatim>\<open>TypeError\<close> instead of returning a payload.
\<close>

theorem json_nested_array_raises:
  assumes "distinct (map fst kvs)" and "(k, v) \<in> set kvs"
    and "\<not> is_ndarray v" and "contains_ndarray v"
  shows "(k, v) \<in> set (dict_comprehension (\<lambda>v. if is_ndarray v then tolist v else v) kvs) \<and>
         (\<exists>t. JSONSerializer_serialize (PDict kvs) = Inl (TypeErrorNotJSON t))"
proof -
  let ?conv = "\<lambda>v. if is_ndarray v then tolist v else v"
  let ?kvs' = "map (\<lambda>kv. (fst kv, ?conv (snd kv))) kvs"
  have comp: "dict_comprehension ?conv kvs = ?kvs'"
    using assms(1) by (rule dict_comprehension_distinct)
  have mem: "(k, v) \<in> set ?kvs'"
    using assms(2,3) by force
  then have "list_ex (\<lambda>kv. contains_ndarray (snd kv)) ?kvs'"
    using assms(4) unfolding list_ex_iff by force
  then have "contains_ndarray (PDict ?kvs')" by simp
  then obtain e where e: "json_encode (PDict ?kvs') = Inl e"
    using json_encode_contains_ndarray by blast
  then obtain t where "e = TypeErrorNotJSON t"
    using json_encode_error_kind by blast
  with e have "JSONSerializer_serialize (PDict kvs) = Inl (TypeErrorNotJSON t)"
    by (simp add: JSONSerializer_serialize_def comp json_dumps_def del: json_encode.simps)
  with mem comp show ?thesis by auto
qed

theorem json_nested_array_raises_witness:
  "JSONSerializer_serialize
     (PDict [(''a'', PList [PArray ''<i8'' [2] [PInt 1, PInt 2]]), (''b'', PStr ''x'')]) =
   Inl (TypeErrorNotJSON T_ndarray)"
  using json_nested_array_raises [of "[(''a'', PList [PArray ''<i8'' [2] [PInt 1, PInt 2]]), (''b'', PStr ''x'')]"
      "''a''" "PList [PArray ''<i8'' [2] [PInt 1, PInt 2]]"]
  by (simp add: JSONSerializer_serialize_def dict_comprehension_def json_dumps_def)

text \<open>
  C6. For a dictionary (its keys distinct, as in every Python dictionary) whose values,
  once each top-level array is replaced by its nested lists, are all encoded by
  \<^verbatim>\<open>json.dumps\<close> (a float always is, a non-finite one as \<^verbatim>\<open>NaN\<close>, \<^verbatim>\<open>Infinity\<close> or
  \<^verbatim>\<open>-Infinity\<close>), \<open>serialize\<close> returns the JSON object with the same keys in the same
  order, each followed by the encoding of its value. When \<^verbatim>\<open>json.dumps\<close> raises on a
  value, \<open>serialize\<close> raises the error of the first such value instead.
\<close>

theorem json_mapping_encoding:
  assumes "distinct (map fst kvs)"
  shows "(map (\<lambda>kv. json_encode (if is_ndarray (snd kv) then tolist (snd kv) else snd kv)) kvs
            = map Inr encs \<longrightarrow>
          JSONSerializer_serialize (PDict kvs) =
            Inr (PStr (''{'' @ str_join '', ''
                   (map2 (\<lambda>kv s. json_str (fst kv) @ '': '' @ s) kvs encs) @ ''}''))) \<and>
         (k < length kvs \<and>
          map (\<lambda>kv. json_encode (if is_ndarray (snd kv) then tolist (snd kv) else snd kv))
            (take k kvs) = map Inr encs0 \<and>
          json_encode (if is_ndarray (snd (kvs ! k)) then tolist (snd (kvs ! k)) else snd (kvs ! k))
            = Inl e \<longrightarrow>
          JSONSerializer_serialize (PDict kvs) = Inl e)"
proof -
  let ?conv = "\<lambda>v. if is_ndarray v then tolist v else v"
  have comp: "dict_comprehension ?conv kvs = map (\<lambda>kv. (fst kv, ?conv (snd kv))) kvs"
    using assms by (rule dict_comprehension_distinct)
  show ?thesis
  proof (intro conjI impI)
    assume "map (\<lambda>kv. json_encode (?conv (snd kv))) kvs = map Inr encs"
    from map_json_items[of ?conv kvs encs, OF this]
    have "json_encode (PDict (map (\<lambda>kv. (fst kv, ?conv (snd kv))) kvs)) =
            Inr (''{'' @ str_join '', ''
                   (map2 (\<lambda>kv s. json_str (fst kv) @ '': '' @ s) kvs encs) @ ''}'')"
      by (simp only: json_encode.simps collect_map_Inr sum.case)
    then show "JSONSerializer_serialize (PDict kvs) =
            Inr (PStr (''{'' @ str_join '', ''
                   (map2 (\<lambda>kv s. json_str (fst kv) @ '': '' @ s) kvs encs) @ ''}''))"
      by (simp add: JSONSerializer_serialize_def comp json_dumps_def del: json_encode.simps)
  next
    assume a: "k < length kvs \<and>
          map (\<lambda>kv. json_encode (?conv (snd kv))) (take k kvs) = map Inr encs0 \<and>
          json_encode (?conv (snd (kvs ! k))) = Inl e"
    have "collect (map (\<lambda>kv. case json_encode (snd kv) of Inl e \<Rightarrow> Inl e
                | Inr s \<Rightarrow> Inr (json_str (fst kv) @ '': '' @ s))
       (map (\<lambda>kv. (fst kv, ?conv (snd kv))) kvs)) = Inl e"
      using a by (intro json_items_first_error[where encs = encs0]) auto
    then have "json_encode (PDict (map (\<lambda>kv. (fst kv, ?conv (snd kv))) kvs)) = Inl e"
      by (simp only: json_encode.simps sum.case)
    then show "JSONSerializer_serialize (PDict kvs) = Inl e"
      by (simp add: JSONSerializer_serialize_def comp json_dumps_def del: json_encode.simps)
  qed
qed

theorem json_mapping_encoding_witness:
  "distinct (map fst [(''a'', PArray ''<i8'' [2] [PInt 1, PInt 2]), (''b'', PStr ''x''),
                      (''c'', PFloat FloatNaN)]) \<and>
   JSONSerializer_serialize (PDict [(''a'', PArray ''<i8'' [2] [PInt 1, PInt 2]), (''b'', PStr ''x''),
                                    (''c'', PFloat FloatNaN)]) =
     Inr (PStr (''{'' @ [DQUOTE] @ ''a'' @ [DQUOTE] @ '': [1, 2], '' @
                [DQUOTE] @ ''b'' @ [DQUOTE] @ '': '' @ [DQUOTE] @ ''x'' @ [DQUOTE] @ '', '' @
                [DQUOTE] @ ''c'' @ [DQUOTE] @ '': NaN}''))"
proof -
  let ?kvs = "[(''a'', PArray ''<i8'' [2] [PInt 1, PInt 2]), (''b'', PStr ''x''),
               (''c'', PFloat FloatNaN)]"
  let ?encs = "[''[1, 2]'', [DQUOTE] @ ''x'' @ [DQUOTE], ''NaN'']"
  have d: "distinct (map fst ?kvs)" by simp
  have u: "[0..<2] = [0, Suc 0]" by (simp add: numeral_2_eq_2)
  have e: "map (\<lambda>kv. json_encode (if is_ndarray (snd kv) then tolist (snd kv) else snd kv)) ?kvs
             = map Inr ?encs"
    by (simp add: u json_str_def json_escape_char_def str_int_def str_nat_digit digit_char_def)
  from json_mapping_encoding [OF d, of ?encs, THEN conjunct1, rule_format, OF e] d
  show ?thesis
    by (simp add: json_str_def json_escape_char_def)
qed

text \<open>The statement for every dictionary with string keys, without that condition, fails for a
  value that JSON cannot represent, such as a set.\<close>

theorem json_mapping_counterexample:
  "JSONSerializer_serialize (PDict [(''a'', PSet [PInt 1])]) = Inl (TypeErrorNotJSON T_set)"
  by (simp add: JSONSerializer_serialize_def dict_comprehension_def json_dumps_def)

text \<open>
  C1. The CSV serializer rejects every object of length zero that is not a string, and
  the NumPy serializer rejects the empty list and every array of size zero, each with
  its \<^verbatim>\<open>ValueError\<close> "Cannot serialize empty array".
\<close>

theorem empty_collections_rejected:
  "(\<not> is_str data \<and> py_len data = Inr 0 \<longrightarrow>
      serialize lib CSVSerializer data = Inl (ValueError ''Cannot serialize empty array'')) \<and>
   serialize lib (NumpySerializer dtype) (PList []) =
      Inl (ValueError ''Cannot serialize empty array.'') \<and>
   (is_ndarray a \<and> array_size a = 0 \<longrightarrow>
      serialize lib (NumpySerializer dtype) a = Inl (ValueError ''Cannot serialize empty array.''))"
  by (simp add: csv_empty numpy_empty_list numpy_empty_array)

theorem empty_collections_rejected_witness:
  "\<not> is_str (PTuple []) \<and> py_len (PTuple []) = Inr 0 \<and>
   serialize \<lparr>obj_str = (\<lambda>v. []), np_array = (\<lambda>v d. Inr v), np_save = (\<lambda>v. Inr [])\<rparr>
      CSVSerializer (PTuple []) = Inl (ValueError ''Cannot serialize empty array'') \<and>
   is_ndarray (PArray ''<i8'' [2, 0] []) \<and> array_size (PArray ''<i8'' [2, 0] []) = 0 \<and>
   serialize \<lparr>obj_str = (\<lambda>v. []), np_array = (\<lambda>v d. Inr v), np_save = (\<lambda>v. Inr [])\<rparr>
      (NumpySerializer None) (PArray ''<i8'' [2, 0] []) =
        Inl (ValueError ''Cannot serialize empty array.'')"
  using empty_collections_rejected [of "PTuple []"
      "\<lparr>obj_str = (\<lambda>v. []), np_array = (\<lambda>v d. Inr v), np_save = (\<lambda>v. Inr [])\<rparr>"
      None "PArray ''<i8'' [2, 0] []"]
  by simp

text \<open>The same statement for all three serializers fails for the JSON
  serializer, which has no emptiness check: the empty list and the empty dictionary
  are encoded.\<close>

theorem json_accepts_empty_list_counterexample:
  "py_len (PList []) = Inr 0 \<and> JSONSerializer_serialize (PList []) = Inr (PStr ''[]'') \<and>
   py_len (PDict []) = Inr 0 \<and> JSONSerializer_serialize (PDict []) = Inr (PStr ''{}'')"
  by (simp add: JSONSerializer_serialize_def json_dumps_def dict_comprehension_def)

text \<open>
  C8. \<^verbatim>\<open>_serialize_row\<close> raises the \<^verbatim>\<open>ValueError\<close> "Cannot serialize empty array"
  for every row of length zero that is not a string; the NumPy serializer raises its
  \<^verbatim>\<open>ValueError\<close> "Cannot serialize empty array." for the empty list and for every array
  of size zero; for any other object without \<^verbatim>\<open>read\<close> it saves
  \<^verbatim>\<open>np.array(data)\<close> with no emptiness check.
\<close>

theorem empty_input_errors:
  "(\<not> is_str row \<and> py_len row = Inr 0 \<longrightarrow>
      CSVSerializer_serialize_row lib row = Inl (ValueError ''Cannot serialize empty array'')) \<and>
   NumpySerializer_serialize lib dtype (PList []) =
      Inl (ValueError ''Cannot serialize empty array.'') \<and>
   (is_ndarray a \<and> array_size a = 0 \<longrightarrow>
      NumpySerializer_serialize lib dtype a = Inl (ValueError ''Cannot serialize empty array.'')) \<and>
   (\<not> is_ndarray x \<and> \<not> is_list x \<and> \<not> has_read x \<longrightarrow>
      NumpySerializer_serialize lib dtype x =
        (case np_array lib x None of
           Inl e \<Rightarrow> Inl e
         | Inr array \<Rightarrow> NumpySerializer_serialize_array lib array))"
  by (simp add: csv_row_empty numpy_empty_list numpy_empty_array)
     (simp add: NumpySerializer_serialize_def has_read_def)

theorem empty_input_errors_witness:
  "\<not> is_str (PSet []) \<and> py_len (PSet []) = Inr 0 \<and>
   CSVSerializer_serialize_row
      \<lparr>obj_str = (\<lambda>v. []), np_array = (\<lambda>v d. Inr (PArray ''float64'' [0] [])),
       np_save = (\<lambda>v. Inr [0x93])\<rparr> (PSet []) =
     Inl (ValueError ''Cannot serialize empty array'') \<and>
   is_ndarray (PArray ''<i8'' [0] []) \<and> array_size (PArray ''<i8'' [0] []) = 0 \<and>
   NumpySerializer_serialize
      \<lparr>obj_str = (\<lambda>v. []), np_array = (\<lambda>v d. Inr (PArray ''float64'' [0] [])),
       np_save = (\<lambda>v. Inr [0x93])\<rparr> None (PArray ''<i8'' [0] []) =
     Inl (ValueError ''Cannot serialize empty array.'') \<and>
   \<not> is_ndarray (PTuple []) \<and> \<not> is_list (PTuple []) \<and> \<not> has_read (PTuple []) \<and>
   py_len (PTuple []) = Inr 0 \<and>
   NumpySerializer_serialize
      \<lparr>obj_str = (\<lambda>v. []), np_array = (\<lambda>v d. Inr (PArray ''float64'' [0] [])),
       np_save = (\<lambda>v. Inr [0x93])\<rparr> None (PTuple []) =
     Inr (PBytes [0x93])"
  using empty_input_errors [of "PSet []"
      "\<lparr>obj_str = (\<lambda>v. []), np_array = (\<lambda>v d. Inr (PArray ''float64'' [0] [])),
        np_save = (\<lambda>v. Inr [0x93])\<rparr>"
      None "PArray ''<i8'' [0] []" "PTuple []"]
  by (simp add: has_read_def NumpySerializer_serialize_array_def)

text \<open>
  C5. For a non-empty list, tuple or one-dimensional array of numbers (integers and
  floats, none of them a sequence), \<open>serialize\<close> of the CSV serializer returns the
  texts \<^verbatim>\<open>str(x)\<close> of the elements joined by commas, and the result does not end in
  a line feed or a carriage return.
\<close>

theorem csv_flat_numbers:
  assumes "xs \<noteq> []" and "list_all is_number xs"
    and "data = PList xs \<or> data = PTuple xs \<or> data = PArray dt [length xs] xs"
  shows "serialize lib CSVSerializer data = Inr (PStr (str_join '','' (map number_str xs))) \<and>
         str_join '','' (map number_str xs) \<noteq> [] \<and>
         last (str_join '','' (map number_str xs)) \<noteq> LF \<and>
         last (str_join '','' (map number_str xs)) \<noteq> CR"
proof -
  from assms(1) obtain x xs' where xs: "xs = x # xs'" by (cases xs) auto
  with assms(2) have "is_number x" by simp
  then have nsl: "\<not> is_sequence_like x" by (rule number_not_sequence_like)
  have row: "CSVSerializer_serialize_row lib data = Inr (str_join '','' (map number_str xs))"
  proof -
    consider (l) "data = PList xs" | (t) "data = PTuple xs"
      | (a) "data = PArray dt [length xs] xs" using assms(3) by blast
    then show ?thesis
    proof cases
      case l
      then show ?thesis using assms(1,2) by (intro csv_row_numbers) simp_all
    next
      case t
      then show ?thesis using assms(1,2) by (intro csv_row_numbers) simp_all
    next
      case a
      have "writerow lib (PArray dt [length xs] xs) =
              Inr (str_join '','' (map number_str xs) @ [CR, LF])"
        using assms(1,2) by (intro writerow_numbers) (simp_all add: array_items_def)
      with a assms(1) joined_numbers[OF assms(1,2)] show ?thesis
        by (simp add: CSVSerializer_serialize_row_def rstrip_terminator)
    qed
  qed
  have "CSVSerializer_serialize lib data = Inr (PStr (str_join '','' (map number_str xs)))"
    using assms(3) row nsl
    by (auto simp: CSVSerializer_serialize_def xs array_items_def)
  with joined_numbers[OF assms(1,2)] show ?thesis by simp
qed

theorem csv_flat_numbers_witness:
  "[PInt 1, PFloat (FloatFinite False [2, 5] 1), PInt (- 3)] \<noteq> [] \<and>
   list_all is_number [PInt 1, PFloat (FloatFinite False [2, 5] 1), PInt (- 3)] \<and>
   serialize \<lparr>obj_str = (\<lambda>v. []), np_array = (\<lambda>v d. Inr v), np_save = (\<lambda>v. Inr [])\<rparr>
     CSVSerializer (PList [PInt 1, PFloat (FloatFinite False [2, 5] 1), PInt (- 3)]) =
       Inr (PStr ''1,2.5,-3'')"
proof -
  let ?xs = "[PInt 1, PFloat (FloatFinite False [2, 5] 1), PInt (- 3)]"
  have s: "str_int 1 = ''1''" "str_int (- 3) = ''-3''"
    by (simp_all add: str_int_def str_nat_digit digit_char_def)
  have ne: "?xs \<noteq> []" by simp
  have num: "list_all is_number ?xs" by simp
  from csv_flat_numbers [OF ne num, of "PList ?xs" undefined
      "\<lparr>obj_str = (\<lambda>v. []), np_array = (\<lambda>v d. Inr v), np_save = (\<lambda>v. Inr [])\<rparr>"]
  show ?thesis by (simp add: s digits_str_def digit_char_def)
qed



text \<open>
  C4. For a non-empty object with \<^verbatim>\<open>__setitem__\<close>, \<^verbatim>\<open>__getitem__\<close> and
  \<^verbatim>\<open>__iter__\<close> whose item \<^verbatim>\<open>data[0]\<close> is itself iterable and indexable: when
  \<^verbatim>\<open>_serialize_row\<close> encodes every element, \<open>serialize\<close> returns the encodings joined
  by a line feed, in the order of the elements; when it fails on some element,
  \<open>serialize\<close> raises the error of the first such element.
\<close>

theorem csv_multi_row:
  assumes "has_setitem data" and "has_getitem data" and "has_iter data"
    and "py_len data = Inr n" and "0 < n"
    and "py_getitem0 data = Inr first" and "is_sequence_like first"
    and "py_iter data = Inr rows"
  shows "(map (CSVSerializer_serialize_row lib) rows = map Inr encoded \<longrightarrow>
            serialize lib CSVSerializer data = Inr (PStr (str_join [LF] encoded))) \<and>
         (k < length rows \<and>
          map (CSVSerializer_serialize_row lib) (take k rows) = map Inr encoded0 \<and>
          CSVSerializer_serialize_row lib (rows ! k) = Inl e \<longrightarrow>
            serialize lib CSVSerializer data = Inl e)"
proof -
  have nr: "py_read data = None" using assms(1) by (cases data) auto
  have unfold: "CSVSerializer_serialize lib data =
      (case collect (map (CSVSerializer_serialize_row lib) rows) of
         Inl e \<Rightarrow> Inl e
       | Inr encoded \<Rightarrow> Inr (PStr (str_join [LF] encoded)))"
    using assms by (simp add: CSVSerializer_serialize_def nr is_sequence_like_def)
  show ?thesis
  proof (intro conjI impI)
    assume "map (CSVSerializer_serialize_row lib) rows = map Inr encoded"
    then have "collect (map (CSVSerializer_serialize_row lib) rows) = Inr encoded"
      by (simp only: collect_map_Inr)
    then show "serialize lib CSVSerializer data = Inr (PStr (str_join [LF] encoded))"
      by (simp add: unfold)
  next
    assume a: "k < length rows \<and>
          map (CSVSerializer_serialize_row lib) (take k rows) = map Inr encoded0 \<and>
          CSVSerializer_serialize_row lib (rows ! k) = Inl e"
    have "collect (map (CSVSerializer_serialize_row lib) rows) = Inl e"
      using a by (intro collect_map_first_error[where ys = encoded0]) auto
    then show "serialize lib CSVSerializer data = Inl e"
      by (simp add: unfold)
  qed
qed

theorem csv_multi_row_witness:
  "has_setitem (PList [PList [PInt 1, PInt 2], PList [PInt 3, PInt 4]]) \<and>
   has_getitem (PList [PList [PInt 1, PInt 2], PList [PInt 3, PInt 4]]) \<and>
   has_iter (PList [PList [PInt 1, PInt 2], PList [PInt 3, PInt 4]]) \<and>
   py_len (PList [PList [PInt 1, PInt 2], PList [PInt 3, PInt 4]]) = Inr 2 \<and>
   py_getitem0 (PList [PList [PInt 1, PInt 2], PList [PInt 3, PInt 4]]) = Inr (PList [PInt 1, PInt 2]) \<and>
   is_sequence_like (PList [PInt 1, PInt 2]) \<and>
   serialize \<lparr>obj_str = (\<lambda>v. []), np_array = (\<lambda>v d. Inr v), np_save = (\<lambda>v. Inr [])\<rparr>
     CSVSerializer (PList [PList [PInt 1, PInt 2], PList [PInt 3, PInt 4]]) =
       Inr (PStr (''1,2'' @ [LF] @ ''3,4''))"
proof -
  let ?lib = "\<lparr>obj_str = (\<lambda>v. []), np_array = (\<lambda>v d. Inr v), np_save = (\<lambda>v. Inr [])\<rparr>"
  let ?data = "PList [PList [PInt 1, PInt 2], PList [PInt 3, PInt 4]]"
  have s: "str_int 1 = ''1''" "str_int 2 = ''2''" "str_int 3 = ''3''" "str_int 4 = ''4''"
    by (simp_all add: str_int_def str_nat_digit digit_char_def)
  have r1: "CSVSerializer_serialize_row ?lib (PList [PInt 1, PInt 2]) = Inr ''1,2''"
    using csv_row_ints[of "[1, 2]" "PList [PInt 1, PInt 2]" ?lib] by (simp add: s)
  have r2: "CSVSerializer_serialize_row ?lib (PList [PInt 3, PInt 4]) = Inr ''3,4''"
    using csv_row_ints[of "[3, 4]" "PList [PInt 3, PInt 4]" ?lib] by (simp add: s)
  have h: "has_setitem ?data" "has_getitem ?data" "has_iter ?data" "py_len ?data = Inr 2"
    "(0::nat) < 2" "py_getitem0 ?data = Inr (PList [PInt 1, PInt 2])"
    "is_sequence_like (PList [PInt 1, PInt 2])"
    "py_iter ?data = Inr [PList [PInt 1, PInt 2], PList [PInt 3, PInt 4]]"
    by (simp_all add: is_sequence_like_def)
  have e: "map (CSVSerializer_serialize_row ?lib) [PList [PInt 1, PInt 2], PList [PInt 3, PInt 4]]
           = map Inr [''1,2'', ''3,4'']"
    by (simp add: r1 r2)
  from csv_multi_row [OF h, of ?lib "[''1,2'', ''3,4'']", THEN conjunct1, rule_format, OF e] h
  show ?thesis by simp
qed

text \<open>The statement that \<open>serialize\<close> returns for every such input
  fails when a later row is empty: the row encoder's emptiness check raises.\<close>

theorem csv_multi_row_counterexample:
  "has_setitem (PList [PList [PInt 1], PList []]) \<and>
   has_getitem (PList [PList [PInt 1], PList []]) \<and>
   has_iter (PList [PList [PInt 1], PList []]) \<and>
   py_len (PList [PList [PInt 1], PList []]) = Inr 2 \<and>
   py_getitem0 (PList [PList [PInt 1], PList []]) = Inr (PList [PInt 1]) \<and>
   is_sequence_like (PList [PInt 1]) \<and>
   CSVSerializer_serialize
     \<lparr>obj_str = (\<lambda>v. []), np_array = (\<lambda>v d. Inr v), np_save = (\<lambda>v. Inr [])\<rparr>
     (PList [PList [PInt 1], PList []]) = Inl (ValueError ''Cannot serialize empty array'')"
proof -
  let ?lib = "\<lparr>obj_str = (\<lambda>v. []), np_array = (\<lambda>v d. Inr v), np_save = (\<lambda>v. Inr [])\<rparr>"
  have r1: "CSVSerializer_serialize_row ?lib (PList [PInt 1]) = Inr (str_join '','' (map str_int [1]))"
    by (intro csv_row_ints) simp_all
  have r2: "CSVSerializer_serialize_row ?lib (PList []) = Inl (ValueError ''Cannot serialize empty array'')"
    by (intro csv_row_empty) simp_all
  show ?thesis
    by (simp add: CSVSerializer_serialize_def is_sequence_like_def r1 r2)
qed

end
